theory Spec2Isabelle
  imports Main "HOL-Library.Char_ord" "HOL-Library.List_Lexorder"
begin

section \<open>Session timer (src/hooks/useTimer.ts)\<close>

subsection \<open>Data\<close>

text \<open>
  JavaScript numbers that hold whole seconds, set counters and indices are modelled as
  \<open>int\<close>.  \<open>Exercise\<close> and \<open>TimerState\<close> follow src/types/index.ts field by field.
\<close>

datatype TimerPhase = IDLE | PREP | WORK | REST | COMPLETE

record Exercise =
  name :: string
  detail :: string
  sets :: int
  work :: int
  rest :: int

record TimerState =
  phase :: TimerPhase
  timeRemaining :: int
  currentSet :: int
  totalSets :: int
  currentExerciseIndex :: int
  totalExercises :: int
  workTime :: int
  restTime :: int
  isRunning :: bool

text \<open>
  The reducer's actions.  The action \<open>'COMPLETE'\<close> is named \<open>COMPLETE_ACTION\<close> because
  the phase of the same name already owns the constructor.  The payload of
  \<open>SET_EXERCISE\<close> is whatever \<open>exercisesRef.current[nextIndex]\<close> evaluated to, which is
  \<open>undefined\<close> (here \<open>None\<close>) for an index outside the array.
\<close>

datatype TimerAction =
    INIT "Exercise list"
  | START
  | PAUSE
  | RESUME
  | TICK
  | NEXT_PHASE
  | NEXT_SET
  | NEXT_EXERCISE
  | SET_EXERCISE "Exercise option" int int
  | RESET
  | COMPLETE_ACTION

datatype error = TypeError

text \<open>Notifications sent to the optional callbacks of the hook.\<close>

datatype event = ExerciseComplete int | WorkoutComplete

definition PREP_TIME :: int where
  "PREP_TIME = 5"

definition initialState :: TimerState where
  "initialState =
     \<lparr>phase = IDLE, timeRemaining = 0, currentSet = 0, totalSets = 0,
      currentExerciseIndex = 0, totalExercises = 0, workTime = 0, restTime = 0,
      isRunning = False\<rparr>"

subsection \<open>The reducer\<close>

text \<open>
  \<open>timerReducer\<close> is total in the source except for \<open>SET_EXERCISE\<close> with an undefined
  exercise, where reading \<open>action.exercise.sets\<close> raises a TypeError.
\<close>

fun timerReducer :: "TimerState \<Rightarrow> TimerAction \<Rightarrow> error + TimerState" where
  "timerReducer state (INIT exercises) =
     (case exercises of
        [] \<Rightarrow> Inr initialState
      | firstExercise # _ \<Rightarrow>
          Inr (initialState
                \<lparr>phase := IDLE,
                 totalExercises := int (length exercises),
                 currentExerciseIndex := 0,
                 currentSet := 1,
                 totalSets := sets firstExercise,
                 workTime := work firstExercise,
                 restTime := rest firstExercise,
                 timeRemaining := PREP_TIME\<rparr>))"
| "timerReducer state START =
     Inr (state\<lparr>phase := PREP, timeRemaining := PREP_TIME, isRunning := True\<rparr>)"
| "timerReducer state PAUSE = Inr (state\<lparr>isRunning := False\<rparr>)"
| "timerReducer state RESUME = Inr (state\<lparr>isRunning := True\<rparr>)"
| "timerReducer state TICK =
     (if \<not> isRunning state then Inr state
      else Inr (state\<lparr>timeRemaining := max 0 (timeRemaining state - 1)\<rparr>))"
| "timerReducer state NEXT_PHASE =
     (case phase state of
        PREP \<Rightarrow> Inr (state\<lparr>phase := WORK, timeRemaining := workTime state\<rparr>)
      | WORK \<Rightarrow>
          (if currentSet state < totalSets state
           then Inr (state\<lparr>phase := REST, timeRemaining := restTime state\<rparr>)
           else Inr (state\<lparr>phase := REST, timeRemaining := restTime state\<rparr>))
      | REST \<Rightarrow> Inr state
      | _ \<Rightarrow> Inr state)"
| "timerReducer state NEXT_SET =
     Inr (state\<lparr>phase := WORK, currentSet := currentSet state + 1,
                timeRemaining := workTime state\<rparr>)"
| "timerReducer state NEXT_EXERCISE = Inr state"
| "timerReducer state (SET_EXERCISE exercise index totalEx) =
     (case exercise of
        None \<Rightarrow> Inl TypeError
      | Some e \<Rightarrow>
          Inr \<lparr>phase = PREP, timeRemaining = PREP_TIME, currentSet = 1,
               totalSets = sets e, currentExerciseIndex = index, totalExercises = totalEx,
               workTime = work e, restTime = rest e, isRunning = True\<rparr>)"
| "timerReducer state RESET = Inr initialState"
| "timerReducer state COMPLETE_ACTION =
     Inr (state\<lparr>phase := COMPLETE, isRunning := False\<rparr>)"

subsection \<open>The hook: phase-transition effect and the exported operations\<close>

text \<open>JavaScript array read: \<open>undefined\<close> outside \<open>0 .. length - 1\<close>.\<close>

definition js_index :: "'a list \<Rightarrow> int \<Rightarrow> 'a option" where
  "js_index xs i = (if 0 \<le> i \<and> i < int (length xs) then Some (xs ! nat i) else None)"

text \<open>
  The effect "Handle phase transitions": given the plan held in \<open>exercisesRef\<close> and the
  current state, the action it dispatches (if any) and the callbacks it fires, in the
  order of the calls.
\<close>

definition phaseTransition :: "Exercise list \<Rightarrow> TimerState \<Rightarrow> TimerAction option \<times> event list" where
  "phaseTransition exercisesRef state =
     (if timeRemaining state = 0 \<and> isRunning state then
        (case phase state of
           PREP \<Rightarrow> (Some NEXT_PHASE, [])
         | WORK \<Rightarrow>
             (if currentSet state < totalSets state then (Some NEXT_PHASE, [])
              else if currentExerciseIndex state < totalExercises state - 1
                then (Some NEXT_PHASE, [])
              else (Some COMPLETE_ACTION, [WorkoutComplete]))
         | REST \<Rightarrow>
             (if currentSet state < totalSets state then (Some NEXT_SET, [])
              else if currentExerciseIndex state < totalExercises state - 1 then
                (let nextIndex = currentExerciseIndex state + 1;
                     nextExercise = js_index exercisesRef nextIndex
                 in (Some (SET_EXERCISE nextExercise nextIndex (int (length exercisesRef))),
                     [ExerciseComplete (currentExerciseIndex state)]))
              else (Some COMPLETE_ACTION, [WorkoutComplete]))
         | _ \<Rightarrow> (None, []))
      else (None, []))"

text \<open>The effect followed by the reducer run on the dispatched action.\<close>

definition boundary :: "Exercise list \<Rightarrow> TimerState \<Rightarrow> (error + TimerState) \<times> event list" where
  "boundary exercisesRef state =
     (case phaseTransition exercisesRef state of
        (None, evs) \<Rightarrow> (Inr state, evs)
      | (Some a, evs) \<Rightarrow> (timerReducer state a, evs))"

text \<open>
  The hook keeps the reducer state together with \<open>exercisesRef\<close>.  Each exported
  operation dispatches one or two actions.
\<close>

record hook =
  timer :: TimerState
  exercisesRef :: "Exercise list"

datatype op =
    Init "Exercise list"
  | Start
  | Pause
  | Resume
  | Tick
  | Toggle
  | Reset
  | SetExercise int
  | Boundary

definition dispatch :: "hook \<Rightarrow> TimerAction \<Rightarrow> error + hook" where
  "dispatch h a =
     (case timerReducer (timer h) a of Inl e \<Rightarrow> Inl e | Inr s \<Rightarrow> Inr (h\<lparr>timer := s\<rparr>))"

definition useTimer :: "Exercise list \<Rightarrow> hook" where
  "useTimer exercises = \<lparr>timer = initialState, exercisesRef = exercises\<rparr>"

fun hook_step :: "hook \<Rightarrow> op \<Rightarrow> error + hook" where
  "hook_step h (Init exercises) = dispatch (h\<lparr>exercisesRef := exercises\<rparr>) (INIT exercises)"
| "hook_step h Start = dispatch h START"
| "hook_step h Pause = dispatch h PAUSE"
| "hook_step h Resume = dispatch h RESUME"
| "hook_step h Tick = dispatch h TICK"
| "hook_step h Toggle =
     (if phase (timer h) = IDLE then dispatch h START
      else if isRunning (timer h) then dispatch h PAUSE
      else dispatch h RESUME)"
| "hook_step h Reset =
     (case dispatch h RESET of
        Inl e \<Rightarrow> Inl e
      | Inr h' \<Rightarrow> dispatch h' (INIT (exercisesRef h')))"
| "hook_step h (SetExercise index) =
     (if 0 \<le> index \<and> index < int (length (exercisesRef h)) then
        (case dispatch h RESET of
           Inl e \<Rightarrow> Inl e
         | Inr h' \<Rightarrow> dispatch h' (INIT (drop (nat index) (exercisesRef h'))))
      else Inr h)"
| "hook_step h Boundary =
     (case fst (boundary (exercisesRef h) (timer h)) of
        Inl e \<Rightarrow> Inl e
      | Inr s \<Rightarrow> Inr (h\<lparr>timer := s\<rparr>))"

fun run :: "hook \<Rightarrow> op list \<Rightarrow> error + hook" where
  "run h [] = Inr h"
| "run h (x # xs) = (case hook_step h x of Inl e \<Rightarrow> Inl e | Inr h' \<Rightarrow> run h' xs)"

text \<open>\<open>tick\<close>, \<open>pause\<close> and \<open>resume\<close> on a bare timer state (these never fail).\<close>

definition tick :: "TimerState \<Rightarrow> TimerState" where
  "tick s = (case timerReducer s TICK of Inr s' \<Rightarrow> s' | Inl _ \<Rightarrow> s)"

definition pause :: "TimerState \<Rightarrow> TimerState" where
  "pause s = (case timerReducer s PAUSE of Inr s' \<Rightarrow> s' | Inl _ \<Rightarrow> s)"

definition resume :: "TimerState \<Rightarrow> TimerState" where
  "resume s = (case timerReducer s RESUME of Inr s' \<Rightarrow> s' | Inl _ \<Rightarrow> s)"

section \<open>Persisted-state container (usePersistedState)\<close>

text \<open>
  What \<open>localStorage.getItem\<close> followed by \<open>JSON.parse\<close> yields: nothing stored, a text
  that does not parse to an envelope (the \<open>try\<close> block is left through its \<open>catch\<close>), or an
  envelope \<open>{date, value}\<close>.  A rollover callback either returns or throws; what it does
  to other stores is outside the container.
\<close>

datatype 'v stored = NoItem | Unparsable | Envelope string 'v

datatype callback_result = Returns | Throws string

text \<open>
  Result of one run of the container's code: the live React state afterwards, the lines
  written with \<open>console.error\<close>, and the calls made to \<open>onReset\<close>.
\<close>

record 'v outcome =
  live :: 'v
  errorLog :: "string list"
  onResetCalls :: "('v \<times> string) list"

text \<open>The initializer passed to \<open>useState\<close> (initial load).\<close>

definition loadInitial ::
  "'v \<Rightarrow> bool \<Rightarrow> ('v \<Rightarrow> string \<Rightarrow> callback_result) option \<Rightarrow> string \<Rightarrow> 'v stored \<Rightarrow> 'v outcome" where
  "loadInitial defaultValue resetAtMidnight onReset today item =
     (case item of
        NoItem \<Rightarrow> \<lparr>live = defaultValue, errorLog = [], onResetCalls = []\<rparr>
      | Unparsable \<Rightarrow> \<lparr>live = defaultValue, errorLog = [], onResetCalls = []\<rparr>
      | Envelope d v \<Rightarrow>
          (if resetAtMidnight \<and> d \<noteq> today then
             (case onReset of
                None \<Rightarrow> \<lparr>live = defaultValue, errorLog = [], onResetCalls = []\<rparr>
              | Some f \<Rightarrow>
                  (case f v d of
                     Returns \<Rightarrow> \<lparr>live = defaultValue, errorLog = [], onResetCalls = [(v, d)]\<rparr>
                   | Throws e \<Rightarrow>
                       \<lparr>live = defaultValue, errorLog = [''onReset failed''],
                        onResetCalls = [(v, d)]\<rparr>))
           else \<lparr>live = v, errorLog = [], onResetCalls = []\<rparr>))"

text \<open>The persist effect: every state is stored wrapped with the current date.\<close>

definition persist :: "string \<Rightarrow> 'v \<Rightarrow> 'v stored" where
  "persist today state = Envelope today state"

text \<open>
  \<open>checkMidnight\<close>, run every minute and when the page becomes visible.  The call of
  \<open>onReset\<close> and \<open>setState(defaultValue)\<close> sit in one \<open>try\<close> block whose \<open>catch\<close> is empty,
  so a throwing callback leaves the block before \<open>setState\<close>.  The effect that installs
  \<open>checkMidnight\<close> returns at once when \<open>resetAtMidnight\<close> is false.
\<close>

definition checkMidnight ::
  "'v \<Rightarrow> bool \<Rightarrow> ('v \<Rightarrow> string \<Rightarrow> callback_result) option \<Rightarrow> string \<Rightarrow> 'v stored \<Rightarrow> 'v \<Rightarrow> 'v outcome" where
  "checkMidnight defaultValue resetAtMidnight onReset today item state =
     (if \<not> resetAtMidnight then \<lparr>live = state, errorLog = [], onResetCalls = []\<rparr>
      else
        (case item of
           NoItem \<Rightarrow> \<lparr>live = state, errorLog = [], onResetCalls = []\<rparr>
         | Unparsable \<Rightarrow> \<lparr>live = state, errorLog = [], onResetCalls = []\<rparr>
         | Envelope d v \<Rightarrow>
             (if d \<noteq> today then
                (case onReset of
                   None \<Rightarrow> \<lparr>live = defaultValue, errorLog = [], onResetCalls = []\<rparr>
                 | Some f \<Rightarrow>
                     (case f v d of
                        Returns \<Rightarrow>
                          \<lparr>live = defaultValue, errorLog = [], onResetCalls = [(v, d)]\<rparr>
                      | Throws e \<Rightarrow>
                          \<lparr>live = state, errorLog = [], onResetCalls = [(v, d)]\<rparr>))
              else \<lparr>live = state, errorLog = [], onResetCalls = []\<rparr>)))"

section \<open>Application state (src/contexts/AppContext.tsx)\<close>

subsection \<open>Data\<close>

text \<open>
  Field names that occur in several interfaces of src/types/index.ts carry the
  interface as a prefix here (\<open>date\<close>, \<open>goal\<close>, \<open>history\<close>, \<open>type\<close>, \<open>id\<close>).  The nested
  objects of \<open>HistoryRecord\<close> are flattened.  A stored prayer list may hold bare
  strings from the older schema next to objects, and the cleanup code also guards
  against values that are neither (\<open>p && p.id\<close>).
\<close>

datatype PrayerType = Alone | Jamat

record PrayerStatus =
  prayer_id :: string
  prayer_type :: PrayerType
  completedAt :: string

datatype prayer_entry = Legacy string | Obj PrayerStatus | Other

record ProteinTracker =
  protein_current :: int
  protein_goal :: int

record HydrationTracker =
  glasses :: int
  hydration_goal :: int

record MindfulnessTracker =
  minutes :: int
  mindfulness_goal :: int

datatype Routine = RoutineA | RoutineB

record ('task, 'nn) DailyState =
  date :: string
  tasks :: "'task list"
  protein :: ProteinTracker
  hydration :: HydrationTracker
  nonNegotiables :: "'nn list"
  activeRoutine :: Routine
  mindfulness :: MindfulnessTracker
  prayers :: "prayer_entry list"

record WorkoutHistoryItem =
  item_date :: string
  workoutId :: string
  duration :: int
  exercisesCompleted :: int

record WorkoutStats =
  totalWorkouts :: int
  totalTime :: int
  lastWorkout :: "string option"
  streak :: int
  stats_history :: "WorkoutHistoryItem list"

record HistoryRecord =
  record_date :: string
  workout_count :: int
  workout_duration :: int
  workout_calories :: int
  nutrition_protein :: int
  nutrition_water :: int
  mindfulness_minutes :: int
  prayers_completed :: "prayer_entry list"
  prayers_total :: int

text \<open>
  The persisted pieces held by \<open>AppProvider\<close>.  The user profile, tasks,
  non-negotiables and workout presets are not inspected by the functions below and
  stay type parameters.
\<close>

record ('user, 'task, 'nn, 'preset) AppState =
  user :: 'user
  stats :: WorkoutStats
  history :: "HistoryRecord list"
  daily :: "('task, 'nn) DailyState"
  activeWorkout :: "'preset option"
  customWorkouts :: "'preset list"

definition DEFAULT_STATS :: WorkoutStats where
  "DEFAULT_STATS =
     \<lparr>totalWorkouts = 0, totalTime = 0, lastWorkout = None, streak = 0, stats_history = []\<rparr>"

subsection \<open>Daily rollover archiver\<close>

text \<open>
  \<open>String.prototype.localeCompare\<close> on the ISO dates \<open>YYYY-MM-DD\<close> the application
  stores, where collation order and code-unit order agree: the sign of the comparison
  in the lexicographic order of the characters.
\<close>

definition localeCompare :: "string \<Rightarrow> string \<Rightarrow> int" where
  "localeCompare a b = (if a < b then - 1 else if a = b then 0 else 1)"

definition startsWith :: "string \<Rightarrow> string \<Rightarrow> bool" where
  "startsWith s p = (take (length p) s = p)"

text \<open>
  \<open>Array.prototype.sort\<close> with a comparator: a stable sort, here by insertion from the
  right end, so that elements the comparator calls equal keep their order.
\<close>

fun insert_cmp :: "('a \<Rightarrow> 'a \<Rightarrow> int) \<Rightarrow> 'a \<Rightarrow> 'a list \<Rightarrow> 'a list" where
  "insert_cmp cmp x [] = [x]"
| "insert_cmp cmp x (y # ys) =
     (if cmp x y \<le> 0 then x # y # ys else y # insert_cmp cmp x ys)"

definition js_sort :: "('a \<Rightarrow> 'a \<Rightarrow> int) \<Rightarrow> 'a list \<Rightarrow> 'a list" where
  "js_sort cmp xs = foldr (insert_cmp cmp) xs []"

text \<open>
  The record built from the stale day.  \<open>Math.round(d / 60 * 10)\<close> is taken at its
  real-number value, rounding half up; the rounding error of the floating-point
  division is not modelled.
\<close>

definition dailyRecord ::
  "WorkoutHistoryItem list \<Rightarrow> ('task, 'nn) DailyState \<Rightarrow> string \<Rightarrow> HistoryRecord" where
  "dailyRecord statsHistory staleDaily staleDate =
     (let dayWorkouts = filter (\<lambda>w. startsWith (item_date w) staleDate) statsHistory
      in \<lparr>record_date = staleDate,
          workout_count = int (length dayWorkouts),
          workout_duration = foldl (\<lambda>acc w. acc + duration w) 0 dayWorkouts,
          workout_calories = (foldl (\<lambda>acc w. acc + duration w) 0 dayWorkouts * 10 + 30) div 60,
          nutrition_protein = protein_current (protein staleDaily),
          nutrition_water = glasses (hydration staleDaily),
          mindfulness_minutes = minutes (mindfulness staleDaily),
          prayers_completed = prayers staleDaily,
          prayers_total = 5\<rparr>)"

text \<open>
  \<open>saveDailyProgress\<close>: the updater handed to \<open>setHistory\<close>, applied to the previous
  history.
\<close>

definition saveDailyProgress ::
  "WorkoutHistoryItem list \<Rightarrow> ('task, 'nn) DailyState \<Rightarrow> string \<Rightarrow> HistoryRecord list \<Rightarrow> HistoryRecord list" where
  "saveDailyProgress statsHistory staleDaily staleDate prev =
     (if list_ex (\<lambda>h. record_date h = staleDate) prev then prev
      else js_sort (\<lambda>a b. localeCompare (record_date b) (record_date a))
             (prev @ [dailyRecord statsHistory staleDaily staleDate]))"

text \<open>Number of records archived for a date.\<close>

definition recordsFor :: "string \<Rightarrow> HistoryRecord list \<Rightarrow> nat" where
  "recordsFor d h = length (filter (\<lambda>r. record_date r = d) h)"

text \<open>The comparator handed to \<open>sort\<close> in \<open>saveDailyProgress\<close>.\<close>

abbreviation by_date_desc :: "HistoryRecord \<Rightarrow> HistoryRecord \<Rightarrow> int" where
  "by_date_desc \<equiv> \<lambda>a b. localeCompare (record_date b) (record_date a)"

subsection \<open>resetStats\<close>

definition resetStats ::
  "('user, 'task, 'nn, 'preset) AppState \<Rightarrow> ('user, 'task, 'nn, 'preset) AppState" where
  "resetStats app = app\<lparr>stats := DEFAULT_STATS, history := []\<rparr>"

subsection \<open>Prayer cleanup and migration effect\<close>

text \<open>
  \<open>uniquePrayers\<close> is a JavaScript \<open>Map\<close>: keys in insertion order, \<open>set\<close> on a present
  key replaces the value in place.
\<close>

type_synonym prayer_map = "(string \<times> PrayerStatus) list"

definition map_has :: "prayer_map \<Rightarrow> string \<Rightarrow> bool" where
  "map_has m k = (k \<in> set (map fst m))"

definition map_set :: "string \<Rightarrow> PrayerStatus \<Rightarrow> prayer_map \<Rightarrow> prayer_map" where
  "map_set k v m =
     (if map_has m k then map (\<lambda>kv. if fst kv = k then (k, v) else kv) m else m @ [(k, v)])"

definition map_values :: "prayer_map \<Rightarrow> PrayerStatus list" where
  "map_values m = map snd m"

text \<open>
  The body of \<open>daily.prayers.forEach\<close>.  \<open>now i\<close> is the value of
  \<open>new Date().toISOString()\<close> read while the element at position \<open>i\<close> is visited.  An
  object whose \<open>id\<close> is the empty string fails the test \<open>p && p.id\<close>.
\<close>

fun cleanupStep :: "(nat \<Rightarrow> string) \<Rightarrow> nat \<Rightarrow> prayer_entry \<Rightarrow> prayer_map \<times> bool \<Rightarrow> prayer_map \<times> bool" where
  "cleanupStep now i (Legacy p) (uniquePrayers, hasChanges) =
     (if \<not> map_has uniquePrayers p
      then (map_set p \<lparr>prayer_id = p, prayer_type = Alone, completedAt = now i\<rparr> uniquePrayers,
            True)
      else (uniquePrayers, hasChanges))"
| "cleanupStep now i (Obj p) (uniquePrayers, hasChanges) =
     (if prayer_id p \<noteq> [] then
        (if \<not> map_has uniquePrayers (prayer_id p)
         then (map_set (prayer_id p) p uniquePrayers, hasChanges)
         else (uniquePrayers, True))
      else (uniquePrayers, hasChanges))"
| "cleanupStep now i Other acc = acc"

fun forEachPrayer :: "(nat \<Rightarrow> string) \<Rightarrow> nat \<Rightarrow> prayer_entry list \<Rightarrow> prayer_map \<times> bool \<Rightarrow> prayer_map \<times> bool" where
  "forEachPrayer now i [] acc = acc"
| "forEachPrayer now i (p # ps) acc = forEachPrayer now (Suc i) ps (cleanupStep now i p acc)"

fun isLegacy :: "prayer_entry \<Rightarrow> bool" where
  "isLegacy (Legacy _) = True"
| "isLegacy _ = False"

text \<open>
  The effect: \<open>None\<close> when \<open>setDaily\<close> is not called, otherwise the prayer list written
  back with \<open>setDaily\<close> (and from there to storage by the container's persist effect).
\<close>

definition prayerCleanup :: "(nat \<Rightarrow> string) \<Rightarrow> prayer_entry list \<Rightarrow> prayer_entry list option" where
  "prayerCleanup now dailyPrayers =
     (if length dailyPrayers > 0 then
        (case forEachPrayer now 0 dailyPrayers ([], False) of
           (uniquePrayers, hasChanges) \<Rightarrow>
             if hasChanges \<or> length uniquePrayers \<noteq> length dailyPrayers
                \<or> list_ex isLegacy dailyPrayers
             then Some (map Obj (map_values uniquePrayers))
             else None)
      else None)"

text \<open>The prayer list after the effect has run.\<close>

definition normalizedPrayers :: "(nat \<Rightarrow> string) \<Rightarrow> prayer_entry list \<Rightarrow> prayer_entry list" where
  "normalizedPrayers now dailyPrayers =
     (case prayerCleanup now dailyPrayers of None \<Rightarrow> dailyPrayers | Some ps \<Rightarrow> ps)"

text \<open>
  The normalization as the specification words it: every bare string becomes an
  object, then entries are deduplicated by id, the first occurrence kept.
\<close>

fun toObject :: "(nat \<Rightarrow> string) \<Rightarrow> nat \<Rightarrow> prayer_entry \<Rightarrow> PrayerStatus option" where
  "toObject now i (Legacy s) = Some \<lparr>prayer_id = s, prayer_type = Alone, completedAt = now i\<rparr>"
| "toObject now i (Obj p) = Some p"
| "toObject now i Other = None"

fun convertFrom :: "(nat \<Rightarrow> string) \<Rightarrow> nat \<Rightarrow> prayer_entry list \<Rightarrow> PrayerStatus list" where
  "convertFrom now i [] = []"
| "convertFrom now i (p # ps) =
     (case toObject now i p of
        None \<Rightarrow> convertFrom now (Suc i) ps
      | Some q \<Rightarrow> q # convertFrom now (Suc i) ps)"

fun dedupById :: "string list \<Rightarrow> PrayerStatus list \<Rightarrow> PrayerStatus list" where
  "dedupById seen [] = []"
| "dedupById seen (p # ps) =
     (if prayer_id p \<in> set seen then dedupById seen ps
      else p # dedupById (prayer_id p # seen) ps)"

definition normalize_spec :: "(nat \<Rightarrow> string) \<Rightarrow> prayer_entry list \<Rightarrow> PrayerStatus list" where
  "normalize_spec now ps = dedupById [] (convertFrom now 0 ps)"

text \<open>Entries the schema allows: a bare string, or an object with a non-empty id.\<close>

fun wellFormedEntry :: "prayer_entry \<Rightarrow> bool" where
  "wellFormedEntry (Legacy _) = True"
| "wellFormedEntry (Obj p) = (prayer_id p \<noteq> [])"
| "wellFormedEntry Other = False"

section \<open>Invariants of the hook\<close>

text \<open>
  The exercise index is not negative and the exercise count stays within the plan held
  in \<open>exercisesRef\<close>.
\<close>

definition plan_inv :: "hook \<Rightarrow> bool" where
  "plan_inv h =
     (0 \<le> currentExerciseIndex (timer h) \<and>
      totalExercises (timer h) \<le> int (length (exercisesRef h)))"






section \<open>Sample inputs\<close>

text \<open>Concrete plans and states at which the theorems below are instantiated.\<close>

definition squats :: Exercise where
  "squats = \<lparr>name = ''Squats'', detail = ''Bodyweight'', sets = 2, work = 3, rest = 2\<rparr>"

definition plank :: Exercise where
  "plank = \<lparr>name = ''Plank'', detail = ''Hold'', sets = 1, work = 1, rest = 4\<rparr>"

definition lunges :: Exercise where
  "lunges = \<lparr>name = ''Lunges'', detail = ''Alternating'', sets = 3, work = 2, rest = 1\<rparr>"

definition skipPlan :: "Exercise list" where
  "skipPlan = [squats, plank, lunges]"

text \<open>
  The hook after \<open>setExercise 1\<close> on \<open>skipPlan\<close>, \<open>start\<close>, and Plank timed to the end of
  its rest.
\<close>

definition plankRested :: hook where
  "plankRested =
     \<lparr>timer =
        \<lparr>phase = REST, timeRemaining = 0, currentSet = 1, totalSets = 1,
         currentExerciseIndex = 0, totalExercises = 2, workTime = 1, restTime = 4,
         isRunning = True\<rparr>,
      exercisesRef = skipPlan\<rparr>"

definition running3 :: TimerState where
  "running3 =
     \<lparr>phase = WORK, timeRemaining = 3, currentSet = 1, totalSets = 2,
      currentExerciseIndex = 0, totalExercises = 1, workTime = 3, restTime = 2,
      isRunning = True\<rparr>"

definition workDone :: "int \<Rightarrow> int \<Rightarrow> TimerState" where
  "workDone set_no total_no =
     \<lparr>phase = WORK, timeRemaining = 0, currentSet = set_no, totalSets = 2,
      currentExerciseIndex = 0, totalExercises = total_no, workTime = 3, restTime = 2,
      isRunning = True\<rparr>"



definition restDone :: "int \<Rightarrow> int \<Rightarrow> TimerState" where
  "restDone set_no total_no =
     \<lparr>phase = REST, timeRemaining = 0, currentSet = set_no, totalSets = 2,
      currentExerciseIndex = 0, totalExercises = total_no, workTime = 3, restTime = 2,
      isRunning = True\<rparr>"

definition throwingCallback :: "int \<Rightarrow> string \<Rightarrow> callback_result" where
  "throwingCallback v d = Throws ''QuotaExceededError''"

definition sampleDaily :: "(unit, unit) DailyState" where
  "sampleDaily =
     \<lparr>date = ''2024-01-01'', tasks = [], protein = \<lparr>protein_current = 90, protein_goal = 140\<rparr>,
      hydration = \<lparr>glasses = 6, hydration_goal = 8\<rparr>, nonNegotiables = [],
      activeRoutine = RoutineA, mindfulness = \<lparr>minutes = 10, mindfulness_goal = 30\<rparr>,
      prayers = []\<rparr>"

definition sampleSessions :: "WorkoutHistoryItem list" where
  "sampleSessions =
     [\<lparr>item_date = ''2024-01-01T07:30:00.000Z'', workoutId = ''hiit'', duration = 600,
       exercisesCompleted = 4\<rparr>,
      \<lparr>item_date = ''2023-12-31T07:30:00.000Z'', workoutId = ''hiit'', duration = 300,
       exercisesCompleted = 2\<rparr>]"

definition sampleHistory :: "HistoryRecord list" where
  "sampleHistory =
     [dailyRecord sampleSessions sampleDaily ''2023-12-31'',
      dailyRecord [] sampleDaily ''2024-01-02'']"

definition fajrJamat :: PrayerStatus where
  "fajrJamat = \<lparr>prayer_id = ''fajr'', prayer_type = Jamat, completedAt = ''2024-01-01T05:10:00.000Z''\<rparr>"

definition isoClock :: "nat \<Rightarrow> string" where
  "isoClock i = ''2024-01-01T20:00:00.000Z''"

section \<open>Properties of the session timer\<close>

subsection \<open>Ticking\<close>

lemma tick_eq:
  "tick s = (if isRunning s then s\<lparr>timeRemaining := max 0 (timeRemaining s - 1)\<rparr> else s)"
  by (simp add: tick_def)

lemma timeRemaining_tick:
  "timeRemaining (tick s) =
     (if isRunning s then max 0 (timeRemaining s - 1) else timeRemaining s)"
  by (simp add: tick_eq)

lemma isRunning_tick: "isRunning (tick s) = isRunning s"
  by (simp add: tick_eq)

lemma isRunning_ticks: "isRunning ((tick ^^ n) s) = isRunning s"
  by (induction n) (simp_all add: isRunning_tick)

lemma timeRemaining_ticks:
  "isRunning s \<Longrightarrow> 0 \<le> timeRemaining s \<Longrightarrow>
   timeRemaining ((tick ^^ n) s) = max 0 (timeRemaining s - int n)"
proof (induction n)
  case 0
  then show ?case by simp
next
  case (Suc n)
  have run: "isRunning ((tick ^^ n) s)"
    using Suc.prems(1) by (simp add: isRunning_ticks)
  have "timeRemaining ((tick ^^ Suc n) s) = max 0 (timeRemaining ((tick ^^ n) s) - 1)"
    using run by (simp add: timeRemaining_tick)
  also have "\<dots> = max 0 (max 0 (timeRemaining s - int n) - 1)"
    using Suc.IH [OF Suc.prems] by simp
  also have "\<dots> = max 0 (timeRemaining s - int (Suc n))"
    by simp
  finally show ?case .
qed

text \<open>
  Claim C6.  \<open>tick\<close> leaves a state that is not running unchanged.  On a running state it
  replaces \<open>timeRemaining\<close> by \<open>max 0 (timeRemaining - 1)\<close> and touches no other field.
  Hence, from a running state, every further tick taken while \<open>timeRemaining\<close> is still
  positive lowers it by exactly one, no tick yields a negative value, after \<open>n\<close> ticks
  the value is \<open>max 0 (timeRemaining - n)\<close>, and after \<open>timeRemaining\<close> ticks it is 0.
\<close>

theorem tick_countdown:
  "(\<not> isRunning s \<longrightarrow> tick s = s) \<and>
   (isRunning s \<longrightarrow> tick s = s\<lparr>timeRemaining := max 0 (timeRemaining s - 1)\<rparr>) \<and>
   (isRunning s \<and> 0 < timeRemaining ((tick ^^ n) s) \<longrightarrow>
      timeRemaining ((tick ^^ Suc n) s) = timeRemaining ((tick ^^ n) s) - 1) \<and>
   (isRunning s \<longrightarrow> 0 \<le> timeRemaining ((tick ^^ Suc n) s)) \<and>
   (isRunning s \<and> 0 \<le> timeRemaining s \<longrightarrow>
      timeRemaining ((tick ^^ n) s) = max 0 (timeRemaining s - int n) \<and>
      timeRemaining ((tick ^^ nat (timeRemaining s)) s) = 0)"
proof -
  have a: "\<not> isRunning s \<Longrightarrow> tick s = s"
    by (simp add: tick_eq)
  have b: "isRunning s \<Longrightarrow> tick s = s\<lparr>timeRemaining := max 0 (timeRemaining s - 1)\<rparr>"
    by (simp add: tick_eq)
  have c: "timeRemaining ((tick ^^ Suc n) s) = timeRemaining ((tick ^^ n) s) - 1"
    if "isRunning s" "0 < timeRemaining ((tick ^^ n) s)"
    using that by (simp add: timeRemaining_tick isRunning_ticks)
  have d: "0 \<le> timeRemaining ((tick ^^ Suc n) s)" if "isRunning s"
    using that by (simp add: timeRemaining_tick isRunning_ticks)
  have e: "timeRemaining ((tick ^^ n) s) = max 0 (timeRemaining s - int n)"
    if "isRunning s" "0 \<le> timeRemaining s"
    using that by (rule timeRemaining_ticks)
  have f: "timeRemaining ((tick ^^ nat (timeRemaining s)) s) = 0"
    if "isRunning s" "0 \<le> timeRemaining s"
    using that by (simp add: timeRemaining_ticks)
  from a b c d e f show ?thesis by blast
qed

theorem tick_countdown_witness:
  "isRunning running3 \<and> 0 < timeRemaining ((tick ^^ 2) running3) \<and>
   tick running3 = running3\<lparr>timeRemaining := 2\<rparr> \<and>
   timeRemaining ((tick ^^ Suc 2) running3) = 0 \<and>
   tick (running3\<lparr>isRunning := False\<rparr>) = running3\<lparr>isRunning := False\<rparr>"
  using tick_countdown [of running3 2] tick_countdown [of "running3\<lparr>isRunning := False\<rparr>" 0]
  by (simp add: running3_def)

subsection \<open>Loading a plan, pausing and resuming\<close>

text \<open>
  Claim C7.  \<open>INIT\<close> with an empty plan returns the initial state, which is \<open>IDLE\<close> and
  not running, and raises nothing.  With a plan \<open>e # es\<close> it returns the state with
  index 0, set 1, the set count and the work and rest times of \<open>e\<close>, \<open>PREP_TIME\<close> seconds
  remaining, the length of the plan as number of exercises, phase \<open>IDLE\<close>, not
  running.  \<open>PREP_TIME\<close> is 5.
\<close>

theorem init_plan:
  "timerReducer s (INIT []) = Inr initialState \<and>
   phase initialState = IDLE \<and> \<not> isRunning initialState \<and>
   timerReducer s (INIT (e # es)) =
     Inr \<lparr>phase = IDLE, timeRemaining = PREP_TIME, currentSet = 1, totalSets = sets e,
          currentExerciseIndex = 0, totalExercises = int (length (e # es)),
          workTime = work e, restTime = rest e, isRunning = False\<rparr> \<and>
   PREP_TIME = 5"
  by (simp add: initialState_def PREP_TIME_def)

text \<open>
  Claim C8.  \<open>pause\<close> and \<open>resume\<close> write the flag \<open>isRunning\<close> and nothing else, in every
  state; so \<open>pause\<close> followed by \<open>resume\<close> keeps phase, remaining time and all counters.
\<close>

theorem pause_resume_frame:
  "pause s = s\<lparr>isRunning := False\<rparr> \<and> resume s = s\<lparr>isRunning := True\<rparr> \<and>
   resume (pause s) = s\<lparr>isRunning := True\<rparr> \<and>
   phase (resume (pause s)) = phase s \<and>
   timeRemaining (resume (pause s)) = timeRemaining s"
  by (simp add: pause_def resume_def)

subsection \<open>Phase boundaries\<close>

text \<open>
  Claim C1.  In a running state in phase \<open>WORK\<close> with no time remaining, the boundary
  evaluation completes the workout (phase \<open>COMPLETE\<close>, not running, workout-completed
  event) exactly when the current set is the last set of the last exercise; in every
  other case it enters \<open>REST\<close> with \<open>timeRemaining = restTime\<close> and fires nothing.
\<close>

theorem work_boundary:
  assumes "phase s = WORK" and "timeRemaining s = 0" and "isRunning s"
  shows "boundary exs s =
     (if totalSets s \<le> currentSet s \<and> totalExercises s - 1 \<le> currentExerciseIndex s
      then (Inr (s\<lparr>phase := COMPLETE, isRunning := False\<rparr>), [WorkoutComplete])
      else (Inr (s\<lparr>phase := REST, timeRemaining := restTime s\<rparr>), []))"
  using assms by (simp add: boundary_def phaseTransition_def)

theorem work_boundary_witness:
  "boundary [squats] (workDone 2 1) =
     (Inr ((workDone 2 1)\<lparr>phase := COMPLETE, isRunning := False\<rparr>), [WorkoutComplete]) \<and>
   boundary [squats] (workDone 1 1) =
     (Inr ((workDone 1 1)\<lparr>phase := REST, timeRemaining := 2\<rparr>), []) \<and>
   boundary [squats, plank] (workDone 2 2) =
     (Inr ((workDone 2 2)\<lparr>phase := REST, timeRemaining := 2\<rparr>), [])"
  using work_boundary [of "workDone 2 1" "[squats]"]
    work_boundary [of "workDone 1 1" "[squats]"]
    work_boundary [of "workDone 2 2" "[squats, plank]"]
  by (simp add: workDone_def)

text \<open>
  The \<open>REST\<close> case as the code computes it, for a state whose exercise index is not
  negative and whose exercise count does not exceed the array in \<open>exercisesRef\<close>: with
  sets left, \<open>WORK\<close> with the set counter raised by one; else, with the index below
  the count minus one, the entry of \<open>exercisesRef\<close> at the index plus one is loaded and
  the exercise-completed event fired; else the workout completes.
\<close>

lemma rest_boundary:
  assumes "phase s = REST" and "timeRemaining s = 0" and "isRunning s"
    and "0 \<le> currentExerciseIndex s" and "totalExercises s \<le> int (length exs)"
  shows "boundary exs s =
     (if currentSet s < totalSets s then
        (Inr (s\<lparr>phase := WORK, currentSet := currentSet s + 1, timeRemaining := workTime s\<rparr>),
         [])
      else if currentExerciseIndex s < totalExercises s - 1 then
        (Inr \<lparr>phase = PREP, timeRemaining = PREP_TIME, currentSet = 1,
              totalSets = sets (exs ! nat (currentExerciseIndex s + 1)),
              currentExerciseIndex = currentExerciseIndex s + 1,
              totalExercises = int (length exs),
              workTime = work (exs ! nat (currentExerciseIndex s + 1)),
              restTime = rest (exs ! nat (currentExerciseIndex s + 1)),
              isRunning = True\<rparr>,
         [ExerciseComplete (currentExerciseIndex s)])
      else (Inr (s\<lparr>phase := COMPLETE, isRunning := False\<rparr>), [WorkoutComplete]))"
  using assms by (simp add: boundary_def phaseTransition_def js_index_def Let_def)

lemma rest_boundary_example:
  "boundary [squats, plank] (restDone 1 2) =
     (Inr ((restDone 1 2)\<lparr>phase := WORK, currentSet := 2, timeRemaining := 3\<rparr>), []) \<and>
   boundary [squats, plank] (restDone 2 2) =
     (Inr \<lparr>phase = PREP, timeRemaining = 5, currentSet = 1, totalSets = 1,
           currentExerciseIndex = 1, totalExercises = 2, workTime = 1, restTime = 4,
           isRunning = True\<rparr>,
      [ExerciseComplete 0]) \<and>
   boundary [squats] (restDone 2 1) =
     (Inr ((restDone 2 1)\<lparr>phase := COMPLETE, isRunning := False\<rparr>), [WorkoutComplete])"
  using rest_boundary [of "restDone 1 2" "[squats, plank]"]
    rest_boundary [of "restDone 2 2" "[squats, plank]"]
    rest_boundary [of "restDone 2 1" "[squats]"]
  by (simp add: restDone_def squats_def plank_def PREP_TIME_def)

text \<open>
  Claim C2 says that at a \<open>REST\<close> boundary with no sets left and exercises remaining,
  the sets, work time and rest time loaded are those of the next exercise.  After
  \<open>setExercise\<close> the code does not do that.  \<open>setExercise 1\<close> on the plan Squats, Plank,
  Lunges restarts the timer on the slice Plank, Lunges with index 0, and leaves the
  whole plan in \<open>exercisesRef\<close>.  Plank is then timed through \<open>PREP\<close>, \<open>WORK\<close> and \<open>REST\<close>.
  At the \<open>REST\<close> boundary the entry of \<open>exercisesRef\<close> at index 1 is loaded: Plank, the
  exercise just finished, with an exercise count of 3, and not Lunges, the next
  exercise of the slice.
\<close>

theorem rest_boundary_after_setExercise:
  "run (useTimer skipPlan)
     [Init skipPlan, SetExercise 1, Start, Tick, Tick, Tick, Tick, Tick, Boundary,
      Tick, Boundary, Tick, Tick, Tick, Tick] = Inr plankRested \<and>
   drop 1 skipPlan = [plank, lunges] \<and>
   boundary (exercisesRef plankRested) (timer plankRested) =
     (Inr \<lparr>phase = PREP, timeRemaining = 5, currentSet = 1, totalSets = sets plank,
           currentExerciseIndex = 1, totalExercises = 3, workTime = work plank,
           restTime = rest plank, isRunning = True\<rparr>,
      [ExerciseComplete 0]) \<and>
   sets plank \<noteq> sets lunges \<and> work plank \<noteq> work lunges \<and> rest plank \<noteq> rest lunges"
  by (simp add: useTimer_def dispatch_def initialState_def PREP_TIME_def boundary_def
      phaseTransition_def js_index_def skipPlan_def plankRested_def squats_def plank_def
      lunges_def)

subsection \<open>Reachable states\<close>

text \<open>
  Whatever the operations, the hook never reads outside its plan: the exercise index
  and count stay consistent with \<open>exercisesRef\<close>, and no step raises.
\<close>

lemma plan_inv_useTimer: "plan_inv (useTimer exercises)"
  by (simp add: plan_inv_def useTimer_def initialState_def)

lemma INIT_plan_inv:
  "length xs \<le> length (exercisesRef h) \<Longrightarrow>
   \<exists>h'. dispatch h (INIT xs) = Inr h' \<and> plan_inv h' \<and> exercisesRef h' = exercisesRef h"
  by (cases xs) (simp_all add: dispatch_def plan_inv_def initialState_def)

lemma boundary_plan_inv:
  assumes "plan_inv h"
  shows "\<exists>h'. hook_step h Boundary = Inr h' \<and> plan_inv h'"
proof (cases "phase (timer h)")
  case REST
  with assms show ?thesis
    by (auto simp: boundary_def phaseTransition_def js_index_def plan_inv_def Let_def)
next
  case WORK
  with assms show ?thesis
    by (auto simp: boundary_def phaseTransition_def plan_inv_def)
qed (use assms in \<open>auto simp: boundary_def phaseTransition_def plan_inv_def\<close>)

lemma hook_step_plan_inv:
  assumes "plan_inv h"
  shows "\<exists>h'. hook_step h x = Inr h' \<and> plan_inv h'"
proof (cases x)
  case (Init exercises)
  then show ?thesis
    using INIT_plan_inv [of exercises "h\<lparr>exercisesRef := exercises\<rparr>"] by auto
next
  case Reset
  then show ?thesis
    using INIT_plan_inv [of "exercisesRef h" "h\<lparr>timer := initialState\<rparr>"]
    by (auto simp: dispatch_def)
next
  case (SetExercise index)
  then show ?thesis
    using assms
      INIT_plan_inv [of "drop (nat index) (exercisesRef h)" "h\<lparr>timer := initialState\<rparr>"]
    by (auto simp: dispatch_def)
next
  case Boundary
  then show ?thesis using boundary_plan_inv [OF assms] by simp
qed (use assms in \<open>auto simp: dispatch_def plan_inv_def\<close>)

lemma run_plan_inv:
  "plan_inv h \<Longrightarrow> \<exists>h'. run h ops = Inr h' \<and> plan_inv h'"
proof (induction ops arbitrary: h)
  case Nil
  then show ?case by simp
next
  case (Cons x xs)
  from hook_step_plan_inv [OF Cons.prems] obtain h1
    where h1: "hook_step h x = Inr h1" "plan_inv h1" by blast
  from Cons.IH [OF h1(2)] h1(1) show ?case by simp
qed










section \<open>Properties of the persisted-state container\<close>

text \<open>
  On initial load a stale envelope always gives way to the default, and a throwing
  rollover callback is caught next to its call and logged.
\<close>

lemma loadInitial_stale:
  "resetAtMidnight \<Longrightarrow> d \<noteq> today \<Longrightarrow>
   live (loadInitial defaultValue resetAtMidnight onReset today (Envelope d v)) = defaultValue"
  by (simp add: loadInitial_def split: option.splits callback_result.splits)

lemma loadInitial_callback_throws:
  "resetAtMidnight \<Longrightarrow> d \<noteq> today \<Longrightarrow> f v d = Throws e \<Longrightarrow>
   loadInitial defaultValue resetAtMidnight (Some f) today (Envelope d v) =
     \<lparr>live = defaultValue, errorLog = [''onReset failed''], onResetCalls = [(v, d)]\<rparr>"
  by (simp add: loadInitial_def)

lemma checkMidnight_callback_returns:
  "d \<noteq> today \<Longrightarrow> f v d = Returns \<Longrightarrow>
   live (checkMidnight defaultValue True (Some f) today (Envelope d v) state) = defaultValue"
  by (simp add: checkMidnight_def)

text \<open>
  Claim C4 asks the same of the periodic and visibility re-check: a throwing
  rollover callback is caught at the call, logged, and the live value is still reset
  to the default.  \<open>checkMidnight\<close> does not do that.  With an envelope dated
  2024-01-01 holding 7, today being 2024-01-02, the default 0 and a callback that
  throws, the live value stays 7 and nothing is logged, while the initial load on the
  same input resets to 0 and logs the failure.
\<close>

theorem checkMidnight_callback_throws:
  "checkMidnight 0 True (Some throwingCallback) ''2024-01-02'' (Envelope ''2024-01-01'' 7) 7 =
     \<lparr>live = 7, errorLog = [], onResetCalls = [(7, ''2024-01-01'')]\<rparr> \<and>
   loadInitial 0 True (Some throwingCallback) ''2024-01-02'' (Envelope ''2024-01-01'' 7) =
     \<lparr>live = 0, errorLog = [''onReset failed''], onResetCalls = [(7, ''2024-01-01'')]\<rparr>"
  by (simp add: checkMidnight_def loadInitial_def throwingCallback_def)

section \<open>Properties of the application state\<close>

subsection \<open>Resetting the statistics\<close>

text \<open>
  Claim C10.  Whatever the workout statistics and the history archive held,
  \<open>resetStats\<close> leaves the default statistics and an empty archive, and keeps the daily
  state, the user profile, the custom workouts and the active workout.  The result
  does not depend on the statistics and archive held before, so the archive is lost.
\<close>

theorem resetStats_frame:
  "stats (resetStats app) = DEFAULT_STATS \<and>
   history (resetStats app) = [] \<and>
   daily (resetStats app) = daily app \<and>
   user (resetStats app) = user app \<and>
   customWorkouts (resetStats app) = customWorkouts app \<and>
   activeWorkout (resetStats app) = activeWorkout app \<and>
   resetStats (app\<lparr>stats := st, history := h\<rparr>) = resetStats app"
  by (simp add: resetStats_def)

subsection \<open>Daily rollover archiver\<close>

lemma set_insert_cmp: "set (insert_cmp cmp x ys) = insert x (set ys)"
  by (induction ys) auto

lemma filter_insert_cmp:
  "length (filter P (insert_cmp cmp x ys)) = length (filter P (x # ys))"
  by (induction ys) auto

lemma filter_js_sort: "length (filter P (js_sort cmp xs)) = length (filter P xs)"
  by (induction xs) (simp_all add: js_sort_def filter_insert_cmp)

lemma recordsFor_js_sort: "recordsFor d (js_sort cmp xs) = recordsFor d xs"
  by (simp add: recordsFor_def filter_js_sort)

lemma list_ex_recordsFor: "list_ex (\<lambda>h. record_date h = d) prev \<longleftrightarrow> 0 < recordsFor d prev"
  by (induction prev) (simp_all add: recordsFor_def)

lemma by_date_desc_le: "by_date_desc x y \<le> 0 \<longleftrightarrow> record_date y \<le> record_date x"
  by (auto simp: localeCompare_def)

lemma sorted_insert_cmp:
  "sorted_wrt (\<lambda>a b. record_date b \<le> record_date a) ys \<Longrightarrow>
   sorted_wrt (\<lambda>a b. record_date b \<le> record_date a) (insert_cmp by_date_desc x ys)"
proof (induction ys)
  case Nil
  then show ?case by simp
next
  case (Cons y ys)
  show ?case
  proof (cases "by_date_desc x y \<le> 0")
    case True
    then have "record_date y \<le> record_date x" by (simp only: by_date_desc_le)
    with Cons.prems True show ?thesis by auto
  next
    case False
    then have "record_date x \<le> record_date y" by (auto simp: by_date_desc_le)
    with Cons False show ?thesis by (auto simp: set_insert_cmp)
  qed
qed

lemma sorted_js_sort:
  "sorted_wrt (\<lambda>a b. record_date b \<le> record_date a) (js_sort by_date_desc xs)"
  by (induction xs) (simp_all add: js_sort_def sorted_insert_cmp)

lemma record_date_dailyRecord: "record_date (dailyRecord sh sd d) = d"
  by (simp add: dailyRecord_def Let_def)

lemma recordsFor_saveDailyProgress:
  "recordsFor d (saveDailyProgress sh sd d prev) =
     (if recordsFor d prev = 0 then 1 else recordsFor d prev)"
  by (simp add: saveDailyProgress_def list_ex_recordsFor recordsFor_js_sort)
    (simp add: recordsFor_def record_date_dailyRecord)

lemma recordsFor_saveDailyProgress_other:
  "d' \<noteq> d \<Longrightarrow> recordsFor d' (saveDailyProgress sh sd d prev) = recordsFor d' prev"
  by (simp add: saveDailyProgress_def recordsFor_js_sort)
    (simp add: recordsFor_def record_date_dailyRecord)

lemma saveDailyProgress_again:
  "saveDailyProgress sh' sd' d (saveDailyProgress sh sd d prev) = saveDailyProgress sh sd d prev"
proof -
  have "0 < recordsFor d (saveDailyProgress sh sd d prev)"
    by (simp add: recordsFor_saveDailyProgress)
  then show ?thesis
    by (subst saveDailyProgress_def) (simp add: list_ex_recordsFor)
qed

lemma sorted_saveDailyProgress:
  "recordsFor d prev = 0 \<Longrightarrow>
   sorted_wrt (\<lambda>a b. record_date b \<le> record_date a) (saveDailyProgress sh sd d prev)"
  by (simp add: saveDailyProgress_def list_ex_recordsFor sorted_js_sort)

lemma recordsFor_le_1_saveDailyProgress:
  "recordsFor d' prev \<le> 1 \<Longrightarrow> recordsFor d' (saveDailyProgress sh sd d prev) \<le> 1"
  by (cases "d' = d")
    (simp_all add: recordsFor_saveDailyProgress recordsFor_saveDailyProgress_other)

text \<open>
  Claim C5.  Take a history with at most one record for the stale date (the archiver,
  started on the empty history, never builds another, see
  \<open>recordsFor_le_1_saveDailyProgress\<close>).  Running the rollover a second time for the
  same date, with whatever daily state and workout log, changes nothing, and the
  history then holds exactly one record for that date.  When the first run inserts a
  record, the history it returns is sorted by date, descending.
\<close>

theorem rollover_idempotent:
  assumes "recordsFor staleDate prev \<le> 1"
  shows "saveDailyProgress sh' sd' staleDate (saveDailyProgress sh sd staleDate prev) =
           saveDailyProgress sh sd staleDate prev \<and>
         recordsFor staleDate
           (saveDailyProgress sh' sd' staleDate (saveDailyProgress sh sd staleDate prev)) = 1 \<and>
         (recordsFor staleDate prev = 0 \<longrightarrow>
            sorted_wrt (\<lambda>a b. record_date b \<le> record_date a)
              (saveDailyProgress sh sd staleDate prev))"
  using assms
  by (simp add: saveDailyProgress_again recordsFor_saveDailyProgress sorted_saveDailyProgress)

theorem rollover_idempotent_witness:
  "recordsFor ''2024-01-01'' sampleHistory \<le> 1 \<and>
   recordsFor ''2024-01-01''
     (saveDailyProgress [] sampleDaily ''2024-01-01''
       (saveDailyProgress sampleSessions sampleDaily ''2024-01-01'' sampleHistory)) = 1 \<and>
   sorted_wrt (\<lambda>a b. record_date b \<le> record_date a)
     (saveDailyProgress sampleSessions sampleDaily ''2024-01-01'' sampleHistory) \<and>
   map record_date (saveDailyProgress sampleSessions sampleDaily ''2024-01-01'' sampleHistory) =
     [''2024-01-02'', ''2024-01-01'', ''2023-12-31'']"
proof -
  have z: "recordsFor ''2024-01-01'' sampleHistory = 0"
    by (simp add: recordsFor_def sampleHistory_def record_date_dailyRecord)
  then have h: "recordsFor ''2024-01-01'' sampleHistory \<le> 1"
    by simp
  have e: "map record_date
      (saveDailyProgress sampleSessions sampleDaily ''2024-01-01'' sampleHistory) =
     [''2024-01-02'', ''2024-01-01'', ''2023-12-31'']"
    by code_simp
  from rollover_idempotent [OF h, of "[]" sampleDaily sampleSessions sampleDaily] h z e
  show ?thesis by blast
qed

subsection \<open>Prayer cleanup\<close>

lemma dedupById_cong: "set a = set b \<Longrightarrow> dedupById a ps = dedupById b ps"
proof (induction ps arbitrary: a b)
  case Nil
  then show ?case by simp
next
  case (Cons p ps)
  from Cons.prems have "set (prayer_id p # a) = set (prayer_id p # b)" by simp
  from Cons.IH [OF this] Cons.IH [OF Cons.prems] Cons.prems show ?case by simp
qed

lemma dedupById_fresh:
  "dedupById (k # seen) ps = dedupById (seen @ [k]) ps"
  by (rule dedupById_cong) simp

lemma ids_dedupById:
  "set (map prayer_id (dedupById seen ps)) \<inter> set seen = {}"
proof (induction ps arbitrary: seen)
  case Nil
  then show ?case by simp
next
  case (Cons p ps)
  from Cons.IH [of seen] Cons.IH [of "prayer_id p # seen"] show ?case by auto
qed

lemma distinct_dedupById: "distinct (map prayer_id (dedupById seen ps))"
proof (induction ps arbitrary: seen)
  case Nil
  then show ?case by simp
next
  case (Cons p ps)
  from ids_dedupById [of "prayer_id p # seen" ps]
  have "prayer_id p \<notin> set (map prayer_id (dedupById (prayer_id p # seen) ps))" by auto
  with Cons.IH show ?case by simp
qed

lemma forEachPrayer_values:
  assumes "list_all wellFormedEntry ps"
  shows "map_values (fst (forEachPrayer now i ps (m, ch))) =
           map_values m @ dedupById (map fst m) (convertFrom now i ps)"
  using assms
proof (induction ps arbitrary: i m ch)
  case Nil
  then show ?case by simp
next
  case (Cons p ps)
  from Cons.prems have wf: "list_all wellFormedEntry ps" by simp
  note IH = Cons.IH [OF wf]
  show ?case
  proof (cases p)
    case (Legacy s)
    show ?thesis
    proof (cases "map_has m s")
      case True
      with Legacy IH [of "Suc i" m ch] show ?thesis by (simp add: map_has_def)
    next
      case False
      let ?q = "\<lparr>prayer_id = s, prayer_type = Alone, completedAt = now i\<rparr>"
      from False Legacy
      have "forEachPrayer now i (p # ps) (m, ch) = forEachPrayer now (Suc i) ps (m @ [(s, ?q)], True)"
        by (simp add: map_set_def)
      with IH [of "Suc i" "m @ [(s, ?q)]" True] False Legacy show ?thesis
        by (simp add: map_has_def map_values_def dedupById_fresh)
    qed
  next
    case (Obj q)
    with Cons.prems have ne: "prayer_id q \<noteq> []" by simp
    show ?thesis
    proof (cases "map_has m (prayer_id q)")
      case True
      with Obj ne IH [of "Suc i" m True] show ?thesis by (simp add: map_has_def)
    next
      case False
      from False Obj ne
      have "forEachPrayer now i (p # ps) (m, ch) =
              forEachPrayer now (Suc i) ps (m @ [(prayer_id q, q)], ch)"
        by (simp add: map_set_def)
      with IH [of "Suc i" "m @ [(prayer_id q, q)]" ch] False Obj show ?thesis
        by (simp add: map_has_def map_values_def dedupById_fresh)
    qed
  next
    case Other
    with Cons.prems show ?thesis by simp
  qed
qed

lemma forEachPrayer_spec:
  "list_all wellFormedEntry ps \<Longrightarrow>
   map_values (fst (forEachPrayer now 0 ps ([], False))) = normalize_spec now ps"
  using forEachPrayer_values [of ps now 0 "[]" False]
  by (simp add: normalize_spec_def map_values_def)

lemma length_cleanupStep: "length (fst (cleanupStep now i p (m, ch))) \<le> Suc (length m)"
  by (cases p) (simp_all add: map_set_def)

lemma length_forEachPrayer:
  "length (fst (forEachPrayer now i ps (m, ch))) \<le> length m + length ps"
proof (induction ps arbitrary: i m ch)
  case Nil
  then show ?case by simp
next
  case (Cons p ps)
  obtain m1 ch1 where step: "cleanupStep now i p (m, ch) = (m1, ch1)"
    by (cases "cleanupStep now i p (m, ch)")
  from length_cleanupStep [of now i p m ch] step have "length m1 \<le> Suc (length m)" by simp
  with Cons.IH [of "Suc i" m1 ch1] step show ?case by simp
qed

lemma forEachPrayer_full:
  assumes "\<not> list_ex isLegacy ps"
    and "length (fst (forEachPrayer now i ps (m, ch))) = length m + length ps"
  shows "map Obj (map_values (fst (forEachPrayer now i ps (m, ch)))) =
           map Obj (map_values m) @ ps"
  using assms
proof (induction ps arbitrary: i m ch)
  case Nil
  then show ?case by simp
next
  case (Cons p ps)
  obtain m1 ch1 where step: "cleanupStep now i p (m, ch) = (m1, ch1)"
    by (cases "cleanupStep now i p (m, ch)")
  from length_cleanupStep [of now i p m ch] step have le: "length m1 \<le> Suc (length m)" by simp
  from length_forEachPrayer [of now "Suc i" ps m1 ch1] Cons.prems(2) step le
  have len1: "length m1 = Suc (length m)"
    and full: "length (fst (forEachPrayer now (Suc i) ps (m1, ch1))) = length m1 + length ps"
    by simp_all
  from Cons.prems(1) have nl: "\<not> list_ex isLegacy ps" and np: "\<not> isLegacy p" by simp_all
  from np obtain q where p: "p = Obj q"
    using len1 step by (cases p) auto
  from len1 step p have m1: "m1 = m @ [(prayer_id q, q)]"
    by (auto simp: map_set_def split: if_splits)
  from Cons.IH [OF nl full] step m1 p show ?case
    by (simp add: map_values_def)
qed

lemma prayerCleanup_None:
  assumes "prayerCleanup now ps = None" and "list_all wellFormedEntry ps"
  shows "map Obj (normalize_spec now ps) = ps"
proof (cases ps)
  case Nil
  then show ?thesis by (simp add: normalize_spec_def)
next
  case (Cons a as)
  obtain m ch where res: "forEachPrayer now 0 ps ([], False) = (m, ch)"
    by (cases "forEachPrayer now 0 ps ([], False)")
  from assms(1) Cons res have c: "\<not> ch" "length m = length ps" "\<not> list_ex isLegacy ps"
    by (auto simp: prayerCleanup_def split: if_splits)
  from forEachPrayer_full [of ps now 0 "[]" False] c res
  have "map Obj (map_values m) = ps" by (simp add: map_values_def)
  with forEachPrayer_spec [OF assms(2), of now] res show ?thesis by simp
qed

lemma prayerCleanup_Some:
  assumes "prayerCleanup now ps = Some ps'" and "list_all wellFormedEntry ps"
  shows "ps' = map Obj (normalize_spec now ps)"
proof -
  obtain m ch where res: "forEachPrayer now 0 ps ([], False) = (m, ch)"
    by (cases "forEachPrayer now 0 ps ([], False)")
  from assms(1) res have "ps' = map Obj (map_values m)"
    by (auto simp: prayerCleanup_def split: if_splits)
  with forEachPrayer_spec [OF assms(2), of now] res show ?thesis by simp
qed

text \<open>
  Claim C9.  For a prayer list of bare strings and objects with an id, the list left
  by the cleanup effect is the one the specification describes: every bare string
  \<open>s\<close> turned into \<open>{id: s, type: 'alone', completedAt: now}\<close>, then deduplicated by id
  with the first occurrence kept; its ids are distinct; whenever it differs from the
  stored list the effect writes it back with \<open>setDaily\<close>; and for the bare string
  \<open>"fajr"\<close> followed by an object with id \<open>"fajr"\<close> it is the single converted entry.
\<close>

theorem prayer_normalization:
  assumes "list_all wellFormedEntry ps"
  shows "normalizedPrayers now ps = map Obj (normalize_spec now ps) \<and>
         distinct (map prayer_id (normalize_spec now ps)) \<and>
         (map Obj (normalize_spec now ps) \<noteq> ps \<longrightarrow>
            prayerCleanup now ps = Some (map Obj (normalize_spec now ps))) \<and>
         normalizedPrayers now [Legacy ''fajr'', Obj fajrJamat] =
           [Obj \<lparr>prayer_id = ''fajr'', prayer_type = Alone, completedAt = now 0\<rparr>]"
proof -
  have a: "normalizedPrayers now ps = map Obj (normalize_spec now ps)"
  proof (cases "prayerCleanup now ps")
    case None
    with prayerCleanup_None [OF None assms] show ?thesis
      by (simp add: normalizedPrayers_def)
  next
    case (Some ps')
    with prayerCleanup_Some [OF Some assms] show ?thesis
      by (simp add: normalizedPrayers_def)
  qed
  have b: "distinct (map prayer_id (normalize_spec now ps))"
    by (simp only: normalize_spec_def distinct_dedupById)
  have c: "prayerCleanup now ps = Some (map Obj (normalize_spec now ps))"
    if "map Obj (normalize_spec now ps) \<noteq> ps"
  proof (cases "prayerCleanup now ps")
    case None
    from prayerCleanup_None [OF None assms] that show ?thesis by simp
  next
    case (Some ps')
    with prayerCleanup_Some [OF Some assms] show ?thesis by simp
  qed
  have d: "normalizedPrayers now [Legacy ''fajr'', Obj fajrJamat] =
           [Obj \<lparr>prayer_id = ''fajr'', prayer_type = Alone, completedAt = now 0\<rparr>]"
    by (simp add: normalizedPrayers_def prayerCleanup_def map_has_def map_set_def
        map_values_def fajrJamat_def)
  from a b c d show ?thesis by blast
qed

theorem prayer_normalization_witness:
  "list_all wellFormedEntry [Legacy ''fajr'', Obj fajrJamat] \<and>
   normalizedPrayers isoClock [Legacy ''fajr'', Obj fajrJamat] =
     map Obj (normalize_spec isoClock [Legacy ''fajr'', Obj fajrJamat]) \<and>
   map Obj (normalize_spec isoClock [Legacy ''fajr'', Obj fajrJamat]) \<noteq>
     [Legacy ''fajr'', Obj fajrJamat] \<and>
   prayerCleanup isoClock [Legacy ''fajr'', Obj fajrJamat] =
     Some [Obj \<lparr>prayer_id = ''fajr'', prayer_type = Alone,
                completedAt = ''2024-01-01T20:00:00.000Z''\<rparr>]"
proof -
  have wf: "list_all wellFormedEntry [Legacy ''fajr'', Obj fajrJamat]"
    by (simp add: fajrJamat_def)
  have spec: "normalize_spec isoClock [Legacy ''fajr'', Obj fajrJamat] =
      [\<lparr>prayer_id = ''fajr'', prayer_type = Alone,
                completedAt = ''2024-01-01T20:00:00.000Z''\<rparr>]"
    by (simp add: normalize_spec_def fajrJamat_def isoClock_def)
  from prayer_normalization [OF wf, of isoClock] wf spec show ?thesis by simp
qed

end
